theory Spec2Isabelle
  imports Main "HOL-Library.Multiset"
begin

section \<open>Strings, digits and integers as \<open>gemmi.py\<close> uses them\<close>

text \<open>
  A Python \<open>str\<close> is modelled as a \<open>string\<close>, a list of characters read as the code
  points below 256. In that range the regular-expression class \<open>\d\<close> holds exactly
  the ten characters \<open>0\<close> to \<open>9\<close>.
\<close>

definition is_digit :: "char \<Rightarrow> bool" where
  "is_digit c \<longleftrightarrow> c \<in> set ''0123456789''"

definition digit_val :: "char \<Rightarrow> nat" where
  "digit_val c = of_char c - 48"

definition digit_char :: "nat \<Rightarrow> char" where
  "digit_char d = ''0123456789'' ! d"

text \<open>
  \<open>int(s)\<close> on a string of decimal digits. The pattern only ever hands over a
  non-empty digit string, so no sign and no \<open>ValueError\<close> arises and the values are
  natural numbers. Python integers are unbounded, and a file name is far shorter than
  the number of digits at which \<open>int\<close> refuses a string.
\<close>

definition py_int :: "string \<Rightarrow> nat" where
  "py_int ds = foldl (\<lambda>n c. 10 * n + digit_val c) 0 ds"

text \<open>\<open>str(n)\<close> (and the \<open>{next_index}\<close> of the f-string) for \<open>n \<ge> 0\<close>.\<close>

fun py_str :: "nat \<Rightarrow> string" where
  "py_str n = (if n < 10 then [digit_char n]
               else py_str (n div 10) @ [digit_char (n mod 10)])"

declare py_str.simps [simp del]

section \<open>The compiled pattern \<open>^prefix(\d+)ext$\<close>\<close>

text \<open>
  \<open>re.escape\<close> makes \<open>prefix\<close> and \<open>ext\<close> literals. \<open>strip_prefix p s\<close> consumes
  the literal \<open>p\<close> at the front of \<open>s\<close>.
\<close>

fun strip_prefix :: "string \<Rightarrow> string \<Rightarrow> string option" where
  "strip_prefix [] s = Some s"
| "strip_prefix (p # ps) [] = None"
| "strip_prefix (p # ps) (c # cs) = (if p = c then strip_prefix ps cs else None)"

text \<open>
  Without \<open>re.MULTILINE\<close>, \<open>$\<close> matches at the end of the string and also just
  before a newline that is the last character of the string.
\<close>

definition at_dollar :: "string \<Rightarrow> bool" where
  "at_dollar r \<longleftrightarrow> r = [] \<or> r = [CHR 0x0A]"

text \<open>The literal \<open>ext\<close> followed by \<open>$\<close>.\<close>

definition match_ext :: "string \<Rightarrow> string \<Rightarrow> bool" where
  "match_ext ext s = (case strip_prefix ext s of None \<Rightarrow> False | Some r \<Rightarrow> at_dollar r)"

text \<open>
  \<open>(\d+)ext$\<close> with the backtracking of the greedy \<open>+\<close>: after a digit, the
  matcher first tries to take more digits and only when that fails tries the rest of
  the pattern. The result is the captured group.
\<close>

fun match_digits :: "string \<Rightarrow> string \<Rightarrow> string option" where
  "match_digits ext [] = None"
| "match_digits ext (c # cs) =
     (if is_digit c then
        (case match_digits ext cs of
           Some ds \<Rightarrow> Some (c # ds)
         | None \<Rightarrow> if match_ext ext cs then Some [c] else None)
      else None)"

text \<open>\<open>pattern.match(fname)\<close>, giving \<open>m.group(1)\<close> when there is a match.\<close>

definition pattern_match :: "string \<Rightarrow> string \<Rightarrow> string \<Rightarrow> string option" where
  "pattern_match prefix ext fname =
     (case strip_prefix prefix fname of None \<Rightarrow> None | Some s \<Rightarrow> match_digits ext s)"

section \<open>The file system and \<open>next_image_filename\<close>\<close>

datatype py_error =
    FileExistsError | FileNotFoundError | NotADirectoryError | OSError
  | EOFError | ValueError | UnidentifiedImageError | ClientError | APIError
  | UnicodeEncodeError | BrokenPipeError

text \<open>
  A path names a regular file or a directory; a directory carries its entry names in
  the order in which \<open>os.listdir\<close> enumerates them. Paths are taken as they are
  written: parent directories and permissions are not part of the model.
\<close>

datatype node = RegularFile | Directory "string list"

type_synonym filesystem = "string \<Rightarrow> node option"

text \<open>\<open>os.makedirs(directory, exist_ok=True)\<close>.\<close>

definition makedirs :: "filesystem \<Rightarrow> string \<Rightarrow> py_error + filesystem" where
  "makedirs fs directory =
     (case fs directory of
        None \<Rightarrow> Inr (fs(directory \<mapsto> Directory []))
      | Some (Directory names) \<Rightarrow> Inr fs
      | Some RegularFile \<Rightarrow> Inl FileExistsError)"

text \<open>\<open>os.listdir(directory)\<close>.\<close>

definition listdir :: "filesystem \<Rightarrow> string \<Rightarrow> py_error + string list" where
  "listdir fs directory =
     (case fs directory of
        None \<Rightarrow> Inl FileNotFoundError
      | Some RegularFile \<Rightarrow> Inl NotADirectoryError
      | Some (Directory names) \<Rightarrow> Inr names)"

text \<open>The \<open>for fname in os.listdir(directory)\<close> loop, with \<open>max_index\<close> threaded through.\<close>

fun scan :: "string \<Rightarrow> string \<Rightarrow> string list \<Rightarrow> nat \<Rightarrow> nat" where
  "scan prefix ext [] max_index = max_index"
| "scan prefix ext (fname # rest) max_index =
     (case pattern_match prefix ext fname of
        None \<Rightarrow> scan prefix ext rest max_index
      | Some g \<Rightarrow> scan prefix ext rest (max max_index (py_int g)))"

text \<open>The part of \<open>next_image_filename\<close> after the listing has been read.\<close>

definition next_name :: "string \<Rightarrow> string \<Rightarrow> string list \<Rightarrow> string" where
  "next_name prefix ext names = prefix @ py_str (scan prefix ext names 0 + 1) @ ext"

definition next_image_filename ::
  "filesystem \<Rightarrow> string \<Rightarrow> string \<Rightarrow> string \<Rightarrow> py_error + (string \<times> filesystem)" where
  "next_image_filename fs directory prefix ext =
     (case makedirs fs directory of
        Inl e \<Rightarrow> Inl e
      | Inr fs' \<Rightarrow>
          (case listdir fs' directory of
             Inl e \<Rightarrow> Inl e
           | Inr names \<Rightarrow> Inr (next_name prefix ext names, fs')))"

text \<open>The indices that the loop feeds into \<open>max\<close>, in listing order.\<close>

definition indices :: "string \<Rightarrow> string \<Rightarrow> string list \<Rightarrow> nat list" where
  "indices prefix ext names = map py_int (List.map_filter (pattern_match prefix ext) names)"

subsection \<open>The naming rule in the specification's words\<close>

text \<open>
  The specification describes a matching name as exactly \<open>prefix\<close>, then one or more
  decimal digits, then \<open>ext\<close>, with nothing before or after. \<open>spec_group\<close> gives the
  digit group of such a name and \<open>spec_next_name\<close> the name the specification asks
  for: the maximum of the parsed groups, 0 when there is none, plus one.
\<close>

definition spec_group :: "string \<Rightarrow> string \<Rightarrow> string \<Rightarrow> string option" where
  "spec_group prefix ext fname =
     (case strip_prefix prefix fname of
        None \<Rightarrow> None
      | Some s \<Rightarrow>
          (let k = length s - length ext; ds = take k s
           in if ds \<noteq> [] \<and> list_all is_digit ds \<and> drop k s = ext then Some ds else None))"

definition spec_indices :: "string \<Rightarrow> string \<Rightarrow> string list \<Rightarrow> nat list" where
  "spec_indices prefix ext names = map py_int (List.map_filter (spec_group prefix ext) names)"

definition spec_next_name :: "string \<Rightarrow> string \<Rightarrow> string list \<Rightarrow> string" where
  "spec_next_name prefix ext names =
     prefix @ py_str (Max (insert 0 (set (spec_indices prefix ext names))) + 1) @ ext"

section \<open>The script body\<close>

subsection \<open>Credential\<close>

text \<open>
  \<open>load_dotenv(path)\<close> with its default \<open>override=False\<close>: a missing file is
  skipped silently, and a binding of the file is put into the process environment only
  when the environment does not define that variable already. \<open>dotenv\<close> is the parsed
  content of \<open>GEMINI_API_KEY.env\<close>, \<open>None\<close> when the file does not exist.
\<close>

definition load_dotenv ::
  "(string \<rightharpoonup> string) option \<Rightarrow> (string \<rightharpoonup> string) \<Rightarrow> (string \<rightharpoonup> string)" where
  "load_dotenv dotenv env = (case dotenv of None \<Rightarrow> env | Some kv \<Rightarrow> kv ++ env)"

text \<open>\<open>not API_KEY\<close>: the variable is unset or is the empty string.\<close>

definition falsy :: "string option \<Rightarrow> bool" where
  "falsy key \<longleftrightarrow> key = None \<or> key = Some []"

subsection \<open>Prompt input\<close>

text \<open>
  The \<open>while True\<close> loop over \<open>input()\<close>. Standard input is the list of lines still to
  be read; \<open>input()\<close> on exhausted input raises \<open>EOFError\<close>. The result is the
  accumulated \<open>lines\<close> and the input left unread.
\<close>

fun read_lines :: "string list \<Rightarrow> string list \<Rightarrow> py_error + (string list \<times> string list)" where
  "read_lines lines [] = Inl EOFError"
| "read_lines lines (line # rest) =
     (if line = [] then Inr (lines, rest) else read_lines (lines @ [line]) rest)"

text \<open>\<open>"\n".join(lines)\<close>.\<close>

fun join_lines :: "string list \<Rightarrow> string" where
  "join_lines [] = []"
| "join_lines [l] = l"
| "join_lines (l # ls) = l @ [CHR 0x0A] @ join_lines ls"

text \<open>\<open>str.isspace\<close> on the code points below 256, and \<open>str.strip()\<close>.\<close>

definition is_space :: "char \<Rightarrow> bool" where
  "is_space c \<longleftrightarrow>
     c \<in> set [CHR 0x09, CHR 0x0A, CHR 0x0B, CHR 0x0C, CHR 0x0D, CHR 0x1C, CHR 0x1D,
              CHR 0x1E, CHR 0x1F, CHR 0x20, CHR 0x85, CHR 0xA0]"

definition strip :: "string \<Rightarrow> string" where
  "strip s = rev (dropWhile is_space (rev (dropWhile is_space s)))"

text \<open>Step 2 of the script: from standard input to \<open>prompt\<close>.\<close>

definition collect_prompt :: "string list \<Rightarrow> py_error + string" where
  "collect_prompt stdin_lines =
     (case read_lines [] stdin_lines of
        Inl e \<Rightarrow> Inl e
      | Inr (lines, rest) \<Rightarrow> Inr (strip (join_lines lines)))"

text \<open>
  The specification's wording of the same step: accumulate up to the first empty line
  or the end of the input, whichever comes first, join with newlines, trim.
\<close>

definition spec_collect_prompt :: "string list \<Rightarrow> string" where
  "spec_collect_prompt stdin_lines = strip (join_lines (takeWhile (\<lambda>l. l \<noteq> []) stdin_lines))"

subsection \<open>Images and the Gemini client\<close>

text \<open>
  An opened image. \<open>Image.open\<close> reads the header only; the pixel data is decoded
  when the image is first used, and \<open>load_error\<close> is the exception which that raises
  on damaged data.
\<close>

record image =
  width :: nat
  height :: nat
  load_error :: "py_error option"

definition BANNER_WIDTH :: nat where
  "BANNER_WIDTH = 1200"

definition BANNER_HEIGHT :: nat where
  "BANNER_HEIGHT = 628"

text \<open>
  \<open>Image.resize((w, h), Image.LANCZOS)\<close> of the imaging library: it decodes the pixel
  data, and the result has exactly the requested size, whatever the size of the
  original.
\<close>

definition resize :: "image \<Rightarrow> nat \<times> nat \<Rightarrow> py_error + image" where
  "resize img dims =
     (case load_error img of
        Some e \<Rightarrow> Inl e
      | None \<Rightarrow> Inr (img\<lparr>width := fst dims, height := snd dims\<rparr>))"

text \<open>
  A part of the response: \<open>inline_data\<close> is \<open>None\<close> for a text part, and otherwise
  holds what \<open>Image.open\<close> makes of the payload, an image or the exception it raises.
\<close>

datatype part = Part (inline_data: "(py_error + image) option")

text \<open>
  The three texts that the script prints: the request for the prompt, the line
  \<open>Generating image\<close> with its ellipsis character, and the line \<open>Saved as\<close> with the
  file name and the multiplication sign between the two dimensions.
\<close>

datatype message = EnterPrompt | Generating | Saved string

text \<open>
  Everything outside the script that a run depends on: the process environment, the
  credential file, the lines on standard input, whether \<open>genai.Client\<close> raises, what
  \<open>generate_content\<close> answers to a prompt (the parts of the first candidate, or the
  exception raised by the call or by reading \<open>response.candidates[0].content.parts\<close>),
  whether \<open>image.save\<close> raises, the file system, and standard output: the exception,
  if any, that \<open>print\<close> raises on a text (an encoding that lacks one of its
  characters, a stream that cannot be written), and whether flushing the stream fails
  when the interpreter shuts down. The logging calls never raise: the logging module
  handles the errors of its own handlers.
\<close>

record world =
  environ :: "string \<rightharpoonup> string"
  dotenv_file :: "(string \<rightharpoonup> string) option"
  stdin :: "string list"
  client_init :: "py_error option"
  generate_content :: "string \<Rightarrow> py_error + part list"
  save_error :: "py_error option"
  files :: filesystem
  print_error :: "message \<Rightarrow> py_error option"
  flush_fails :: bool

text \<open>
  Step 1 of the script: \<open>load_dotenv("GEMINI_API_KEY.env")\<close>, then
  \<open>os.getenv("GEMINI_API_KEY")\<close>.
\<close>

definition API_KEY :: "world \<Rightarrow> string option" where
  "API_KEY w = load_dotenv (dotenv_file w) (environ w) ''GEMINI_API_KEY''"

datatype failure = MissingApiKey | NoPrompt | ProcessFailed py_error | Uncaught py_error

datatype event =
    PromptRequested
  | LineRead string
  | ProviderCall string
  | FileWritten string image
  | ErrorLogged failure

text \<open>The \<open>for part in ...parts\<close> loop of \<open>generate_image\<close>.\<close>

fun first_image :: "part list \<Rightarrow> py_error + image" where
  "first_image [] = Inl ValueError"
| "first_image (p # ps) =
     (case inline_data p of None \<Rightarrow> first_image ps | Some d \<Rightarrow> d)"

text \<open>\<open>GeminiImageGenerator.generate_image\<close>; the call itself is \<open>ProviderCall prompt\<close>.\<close>

definition generate_image :: "world \<Rightarrow> string \<Rightarrow> py_error + image" where
  "generate_image w prompt =
     (case generate_content w prompt of Inl e \<Rightarrow> Inl e | Inr parts \<Rightarrow> first_image parts)"

text \<open>A new entry in a directory; writing over an existing name leaves the listing as it is.\<close>

definition add_entry :: "filesystem \<Rightarrow> string \<Rightarrow> string \<Rightarrow> filesystem" where
  "add_entry fs directory name =
     (case fs directory of
        Some (Directory names) \<Rightarrow>
          (if name \<in> set names then fs else fs(directory \<mapsto> Directory (names @ [name])))
      | _ \<Rightarrow> fs)"

text \<open>
  \<open>GeminiImageGenerator.save_image\<close>. \<open>image.save\<close> either writes the whole file or
  raises and leaves no file behind. The result is the path written and the new file
  system.
\<close>

definition save_image ::
  "world \<Rightarrow> filesystem \<Rightarrow> image \<Rightarrow> string \<Rightarrow> py_error + (string \<times> filesystem)" where
  "save_image w fs img filename =
     (case makedirs fs ''images'' of
        Inl e \<Rightarrow> Inl e
      | Inr fs' \<Rightarrow>
          (case save_error w of
             Some e \<Rightarrow> Inl e
           | None \<Rightarrow> Inr (''images/'' @ filename, add_entry fs' ''images'' filename)))"

subsection \<open>The run\<close>

record outcome =
  exit_code :: nat
  events :: "event list"
  files_after :: filesystem

text \<open>
  The \<open>try\<close> block: its result (the exception raised inside it, or the file name),
  the events it caused and the file system it leaves. The block ends with the
  \<open>print\<close> of the \<open>Saved as\<close> line, after \<open>save_image\<close> has returned.
\<close>

definition try_block :: "world \<Rightarrow> string \<Rightarrow> (py_error + string) \<times> event list \<times> filesystem" where
  "try_block w prompt =
     (case print_error w Generating of
        Some e \<Rightarrow> (Inl e, [], files w)
      | None \<Rightarrow>
     (case client_init w of
        Some e \<Rightarrow> (Inl e, [], files w)
      | None \<Rightarrow>
     (case generate_image w prompt of
        Inl e \<Rightarrow> (Inl e, [ProviderCall prompt], files w)
      | Inr img \<Rightarrow>
     (case resize img (BANNER_WIDTH, BANNER_HEIGHT) of
        Inl e \<Rightarrow> (Inl e, [ProviderCall prompt], files w)
      | Inr resized \<Rightarrow>
     (case next_image_filename (files w) ''images'' ''img'' ''.png'' of
        Inl e \<Rightarrow> (Inl e, [ProviderCall prompt], files w)
      | Inr (filename, fs1) \<Rightarrow>
     (case save_image w fs1 resized filename of
        Inl e \<Rightarrow> (Inl e, [ProviderCall prompt], fs1)
      | Inr (path, fs2) \<Rightarrow>
     (case print_error w (Saved filename) of
        Some e \<Rightarrow> (Inl e, [ProviderCall prompt, FileWritten path resized], fs2)
      | None \<Rightarrow> (Inr filename, [ProviderCall prompt, FileWritten path resized], fs2))))))))"

text \<open>
  The \<open>__main__\<close> block, with the status that the script itself ends with:
  \<open>sys.exit(1)\<close> and an exception that nothing catches give 1, falling off the end of
  the script gives 0. The \<open>print\<close> of the request for the prompt and the \<open>input()\<close>
  loop stand outside the \<open>try\<close>, so an exception there is not caught.
\<close>

definition main :: "world \<Rightarrow> outcome" where
  "main w =
     (if falsy (API_KEY w) then
        \<lparr>exit_code = 1, events = [ErrorLogged MissingApiKey], files_after = files w\<rparr>
      else
        (case print_error w EnterPrompt of
           Some e \<Rightarrow>
             \<lparr>exit_code = 1, events = [ErrorLogged (Uncaught e)], files_after = files w\<rparr>
         | None \<Rightarrow>
        (case read_lines [] (stdin w) of
           Inl e \<Rightarrow>
             \<lparr>exit_code = 1,
              events = PromptRequested # map LineRead (stdin w) @ [ErrorLogged (Uncaught e)],
              files_after = files w\<rparr>
         | Inr (lines, rest) \<Rightarrow>
             (let reads = PromptRequested # map LineRead (lines @ [[]]);
                  prompt = strip (join_lines lines)
              in if prompt = [] then
                   \<lparr>exit_code = 1, events = reads @ [ErrorLogged NoPrompt],
                    files_after = files w\<rparr>
                 else
                   (case try_block w prompt of
                      (Inl e, evs, fs) \<Rightarrow>
                        \<lparr>exit_code = 1,
                         events = reads @ evs @ [ErrorLogged (ProcessFailed e)],
                         files_after = fs\<rparr>
                    | (Inr filename, evs, fs) \<Rightarrow>
                        \<lparr>exit_code = 0, events = reads @ evs, files_after = fs\<rparr>)))))"

text \<open>
  The exit status of the process. When the interpreter shuts down it flushes standard
  output, and when that fails it replaces the status of the script by 120.
\<close>

definition exit_status :: "world \<Rightarrow> nat" where
  "exit_status w = (if flush_fails w then 120 else exit_code (main w))"

text \<open>What a run wrote, what it asked the provider, and a directory's listing.\<close>

fun written :: "event list \<Rightarrow> (string \<times> image) list" where
  "written [] = []"
| "written (FileWritten path img # evs) = (path, img) # written evs"
| "written (ev # evs) = written evs"

fun provider_calls :: "event list \<Rightarrow> string list" where
  "provider_calls [] = []"
| "provider_calls (ProviderCall prompt # evs) = prompt # provider_calls evs"
| "provider_calls (ev # evs) = provider_calls evs"

fun input_events :: "event list \<Rightarrow> event list" where
  "input_events [] = []"
| "input_events (PromptRequested # evs) = PromptRequested # input_events evs"
| "input_events (LineRead l # evs) = LineRead l # input_events evs"
| "input_events (ev # evs) = input_events evs"

definition listing :: "filesystem \<Rightarrow> string \<Rightarrow> string list" where
  "listing fs directory = (case fs directory of Some (Directory names) \<Rightarrow> names | _ \<Rightarrow> [])"






text \<open>
  A world for concrete runs: the directory \<open>images\<close> holds \<open>img1.png\<close> and
  \<open>img2.png\<close>, the provider answers every prompt with a text part and a 512 by 512
  image that decodes, and nothing fails.
\<close>

abbreviation sample_world ::
  "(string \<rightharpoonup> string) \<Rightarrow> (string \<rightharpoonup> string) option \<Rightarrow> string list \<Rightarrow> world" where
  "sample_world env dotenv lines \<equiv>
     \<lparr>environ = env, dotenv_file = dotenv, stdin = lines, client_init = None,
      generate_content =
        (\<lambda>prompt. Inr [Part None,
                       Part (Some (Inr \<lparr>width = 512, height = 512, load_error = None\<rparr>))]),
      save_error = None,
      files = [''images'' \<mapsto> Directory [''img1.png'', ''img2.png'']],
      print_error = (\<lambda>text. None), flush_fails = False\<rparr>"


section \<open>Properties of the pattern\<close>

lemma strip_prefix_iff: "strip_prefix p s = Some r \<longleftrightarrow> s = p @ r"
  by (induction p s rule: strip_prefix.induct) auto

lemma strip_prefix_append: "strip_prefix p (p @ r) = Some r"
  by (simp add: strip_prefix_iff)

lemma match_ext_iff: "match_ext ext s \<longleftrightarrow> (\<exists>t. s = ext @ t \<and> at_dollar t)"
  by (cases "strip_prefix ext s") (auto simp: match_ext_def strip_prefix_iff strip_prefix_append)

lemma shift_last: "ds @ ext = ds' @ ext @ [n] \<Longrightarrow> n \<in> set ds"
  by (induction ext rule: rev_induct) auto

lemma is_digit_not_newline: "is_digit c \<Longrightarrow> c \<noteq> CHR 0x0A"
  by (auto simp: is_digit_def)

lemma match_digits_sound:
  "match_digits ext s = Some ds \<Longrightarrow>
     ds \<noteq> [] \<and> list_all is_digit ds \<and> (\<exists>t. s = ds @ ext @ t \<and> at_dollar t)"
proof (induction ext s arbitrary: ds rule: match_digits.induct)
  case (1 ext)
  then show ?case by simp
next
  case (2 ext c cs)
  show ?case
  proof (cases "match_digits ext cs")
    case None
    with "2.prems" have "is_digit c" "match_ext ext cs" "ds = [c]"
      by (auto split: if_splits)
    then show ?thesis by (auto simp: match_ext_iff)
  next
    case (Some d)
    with "2.prems" have c: "is_digit c" and ds: "ds = c # d"
      by (auto split: if_splits)
    from "2.IH"[OF c Some] show ?thesis using c ds by auto
  qed
qed

lemma match_digits_complete:
  "ds \<noteq> [] \<Longrightarrow> list_all is_digit ds \<Longrightarrow> at_dollar t \<Longrightarrow>
     \<exists>g. match_digits ext (ds @ ext @ t) = Some g"
proof (induction ds)
  case Nil
  then show ?case by simp
next
  case (Cons c ds)
  show ?case
  proof (cases "ds = []")
    case True
    with Cons.prems have "match_ext ext (ds @ ext @ t)" by (auto simp: match_ext_iff)
    with Cons.prems show ?thesis by (auto split: option.splits)
  next
    case False
    with Cons obtain g where "match_digits ext (ds @ ext @ t) = Some g" by auto
    with Cons.prems show ?thesis by simp
  qed
qed

lemma group_unique:
  assumes eq: "ds @ ext @ t = ds' @ ext @ t'"
    and d: "list_all is_digit ds" and d': "list_all is_digit ds'"
    and t: "at_dollar t" and t': "at_dollar t'"
  shows "ds = ds'"
proof (cases "t = t'")
  case True
  with eq show ?thesis by simp
next
  case False
  with t t' consider "t = []" "t' = [CHR 0x0A]" | "t' = []" "t = [CHR 0x0A]"
    by (auto simp: at_dollar_def)
  then show ?thesis
  proof cases
    case 1
    with eq have "CHR 0x0A \<in> set ds" using shift_last [of ds ext ds'] by simp
    with d show ?thesis using is_digit_not_newline by (auto simp: list_all_iff)
  next
    case 2
    with eq have "CHR 0x0A \<in> set ds'" using shift_last [of ds' ext ds] by simp
    with d' show ?thesis using is_digit_not_newline by (auto simp: list_all_iff)
  qed
qed

lemma pattern_match_iff:
  "pattern_match prefix ext fname = Some ds \<longleftrightarrow>
     ds \<noteq> [] \<and> list_all is_digit ds \<and> (\<exists>t. fname = prefix @ ds @ ext @ t \<and> at_dollar t)"
  (is "?L \<longleftrightarrow> ?R")
proof
  assume ?L
  then obtain s where s: "fname = prefix @ s" and m: "match_digits ext s = Some ds"
    by (auto simp: pattern_match_def strip_prefix_iff split: option.splits)
  from match_digits_sound [OF m] s show ?R by auto
next
  assume r: ?R
  then obtain t where f: "fname = prefix @ ds @ ext @ t" and t: "at_dollar t" by auto
  from r t obtain g where g: "match_digits ext (ds @ ext @ t) = Some g"
    using match_digits_complete by blast
  from match_digits_sound [OF g] obtain t' where
    "list_all is_digit g" "ds @ ext @ t = g @ ext @ t'" "at_dollar t'" by auto
  with r t have "ds = g" using group_unique by blast
  with g f show ?L by (simp add: pattern_match_def strip_prefix_append)
qed

section \<open>Decimal numerals\<close>

lemma digit_cases: "d < 10 \<Longrightarrow> d \<in> {0, 1, 2, 3, 4, 5, 6, 7, 8, 9::nat}"
  by auto

lemma is_digit_digit_char: "d < 10 \<Longrightarrow> is_digit (digit_char d)"
  using digit_cases [of d] by (auto simp: is_digit_def digit_char_def)

lemma digit_val_digit_char: "d < 10 \<Longrightarrow> digit_val (digit_char d) = d"
  using digit_cases [of d] by (auto simp: digit_val_def digit_char_def)

lemma py_str_digits: "list_all is_digit (py_str n)"
  by (induction n rule: py_str.induct) (subst py_str.simps, simp add: is_digit_digit_char)

lemma py_str_nonempty: "py_str n \<noteq> []"
  by (subst py_str.simps) simp

lemma py_int_snoc: "py_int (ds @ [c]) = 10 * py_int ds + digit_val c"
  by (simp add: py_int_def)

lemma py_int_py_str: "py_int (py_str n) = n"
proof (induction n rule: py_str.induct)
  case (1 n)
  show ?case
  proof (cases "n < 10")
    case True
    then show ?thesis
      by (subst py_str.simps) (simp add: py_int_def digit_val_digit_char)
  next
    case False
    with 1 have "py_int (py_str (n div 10)) = n div 10" by simp
    with False show ?thesis
      by (subst py_str.simps) (simp add: py_int_snoc digit_val_digit_char)
  qed
qed

lemma py_str_inj: "py_str m = py_str n \<Longrightarrow> m = n"
  by (metis py_int_py_str)

lemma foldl_zeros: "foldl (\<lambda>n c. 10 * n + digit_val c) 0 (replicate k CHR ''0'') = 0"
  by (induction k) (simp_all add: digit_val_def)

lemma py_int_leading_zeros: "py_int (replicate k CHR ''0'' @ ds) = py_int ds"
  by (simp add: py_int_def foldl_zeros)

section \<open>The scan\<close>

lemma scan_fold: "scan prefix ext names m = fold max (indices prefix ext names) m"
  by (induction names arbitrary: m) (auto simp: indices_def max.commute split: option.splits)

lemma scan_Max: "scan prefix ext names m = Max (insert m (set (indices prefix ext names)))"
  by (simp add: scan_fold Max.set_eq_fold [symmetric])

lemma set_indices:
  "set (indices prefix ext names) =
     {py_int g | g f. f \<in> set names \<and> pattern_match prefix ext f = Some g}"
  by (auto simp: indices_def List.map_filter_def) force

lemma next_name_Max:
  "next_name prefix ext names =
     prefix @ py_str (Max (insert 0 (set (indices prefix ext names))) + 1) @ ext"
  by (simp add: next_name_def scan_Max)

text \<open>The name built from the maximum is itself matched by the pattern, so it is new.\<close>

lemma next_name_fresh: "next_name prefix ext names \<notin> set names"
proof
  let ?M = "Max (insert 0 (set (indices prefix ext names)))"
  assume "next_name prefix ext names \<in> set names"
  then have mem: "prefix @ py_str (?M + 1) @ ext \<in> set names"
    by (simp add: next_name_Max)
  have "pattern_match prefix ext (prefix @ py_str (?M + 1) @ ext) = Some (py_str (?M + 1))"
    by (simp add: pattern_match_iff py_str_digits py_str_nonempty at_dollar_def)
  with mem have "py_int (py_str (?M + 1)) \<in> set (indices prefix ext names)"
    unfolding set_indices by blast
  then have "?M + 1 \<in> insert 0 (set (indices prefix ext names))"
    by (simp add: py_int_py_str)
  then have "?M + 1 \<le> ?M"
    by (intro Max_ge) auto
  then show False by simp
qed

lemma next_image_filename_dir:
  "fs directory = Some (Directory names) \<Longrightarrow>
     next_image_filename fs directory prefix ext = Inr (next_name prefix ext names, fs)"
  by (simp add: next_image_filename_def makedirs_def listdir_def)

lemma next_image_filename_absent:
  "fs directory = None \<Longrightarrow>
     next_image_filename fs directory prefix ext =
       Inr (next_name prefix ext [], fs(directory \<mapsto> Directory []))"
  by (simp add: next_image_filename_def makedirs_def listdir_def)

lemma next_image_filename_file:
  "fs directory = Some RegularFile \<Longrightarrow>
     next_image_filename fs directory prefix ext = Inl FileExistsError"
  by (simp add: next_image_filename_def makedirs_def)

lemma spec_group_iff:
  "spec_group prefix ext fname = Some ds \<longleftrightarrow>
     ds \<noteq> [] \<and> list_all is_digit ds \<and> fname = prefix @ ds @ ext"
proof (cases "strip_prefix prefix fname")
  case None
  then have "\<And>r. fname \<noteq> prefix @ r" using strip_prefix_iff [of prefix fname] by auto
  with None show ?thesis by (auto simp: spec_group_def)
next
  case (Some s)
  then have f: "fname = prefix @ s" by (simp add: strip_prefix_iff)
  show ?thesis
  proof
    assume "spec_group prefix ext fname = Some ds"
    with Some have ds: "ds = take (length s - length ext) s" "ds \<noteq> []" "list_all is_digit ds"
      and e: "drop (length s - length ext) s = ext"
      by (auto simp: spec_group_def Let_def split: if_splits)
    from ds(1) e have "s = ds @ ext" by (metis append_take_drop_id)
    with ds f show "ds \<noteq> [] \<and> list_all is_digit ds \<and> fname = prefix @ ds @ ext" by simp
  next
    assume r: "ds \<noteq> [] \<and> list_all is_digit ds \<and> fname = prefix @ ds @ ext"
    with f have "s = ds @ ext" by simp
    with Some r show "spec_group prefix ext fname = Some ds"
      by (simp add: spec_group_def)
  qed
qed

text \<open>
  The pattern accepts the names the specification describes and, beyond them, each
  such name followed by one newline character.
\<close>

lemma pattern_match_spec_group:
  "pattern_match prefix ext fname = Some ds \<longleftrightarrow>
     spec_group prefix ext fname = Some ds \<or>
     (ds \<noteq> [] \<and> list_all is_digit ds \<and> fname = prefix @ ds @ ext @ [CHR 0x0A])"
  by (auto simp: pattern_match_iff spec_group_iff at_dollar_def)

lemma pattern_match_exact:
  assumes "\<And>ds. ds \<noteq> [] \<Longrightarrow> list_all is_digit ds \<Longrightarrow> fname \<noteq> prefix @ ds @ ext @ [CHR 0x0A]"
  shows "pattern_match prefix ext fname = spec_group prefix ext fname"
proof (cases "spec_group prefix ext fname")
  case None
  with assms have "\<And>ds. pattern_match prefix ext fname \<noteq> Some ds"
    by (auto simp: pattern_match_spec_group)
  with None show ?thesis by (cases "pattern_match prefix ext fname") auto
next
  case (Some ds)
  then show ?thesis by (simp add: pattern_match_spec_group)
qed

text \<open>On a listing without such newline names the code computes the specified name.\<close>

lemma next_name_refines_spec:
  assumes "\<And>f ds. f \<in> set names \<Longrightarrow> ds \<noteq> [] \<Longrightarrow> list_all is_digit ds \<Longrightarrow>
             f \<noteq> prefix @ ds @ ext @ [CHR 0x0A]"
  shows "next_name prefix ext names = spec_next_name prefix ext names"
proof -
  have "List.map_filter (pattern_match prefix ext) names =
        List.map_filter (spec_group prefix ext) names"
    unfolding List.map_filter_def
    using assms by (intro arg_cong2 [where f = map] filter_cong map_cong refl)
      (auto simp: pattern_match_exact)
  then show ?thesis
    by (simp add: next_name_Max spec_next_name_def indices_def spec_indices_def)
qed

text \<open>A name that the pattern rejects never changes the result.\<close>

lemma next_name_ignores_unmatched:
  "pattern_match prefix ext f = None \<Longrightarrow>
     next_name prefix ext (xs @ f # ys) = next_name prefix ext (xs @ ys)"
  by (simp add: next_name_Max indices_def List.map_filter_def)

lemma spec_examples_rejected:
  "pattern_match ''img'' ''.png'' ''image2.png'' = None"
  "pattern_match ''img'' ''.png'' ''img2.jpg'' = None"
  "pattern_match ''img'' ''.png'' ''imgX.png'' = None"
  "pattern_match ''img'' ''.png'' ''img2.PNG'' = None"
  by code_simp+

section \<open>Claims about \<open>next_image_filename\<close>\<close>

text \<open>
  C1. For a listing that holds at least one name of the exact form prefix, digits, ext,
  the specification asks for prefix + str(M+1) + ext with M the maximum over the names
  of that exact form. The code departs from this at the listing
  \<open>img1.png\<close>, \<open>img5.png\<close> followed by a newline: the pattern's \<open>$\<close> accepts the
  second name, so the code returns \<open>img6.png\<close> where the specified name is
  \<open>img2.png\<close>.
\<close>

theorem next_image_filename_newline_name_raises_max:
  "next_image_filename [''images'' \<mapsto> Directory [''img1.png'', ''img5.png'' @ [CHR 0x0A]]]
       ''images'' ''img'' ''.png''
     = Inr (''img6.png'', [''images'' \<mapsto> Directory [''img1.png'', ''img5.png'' @ [CHR 0x0A]]])
   \<and> spec_group ''img'' ''.png'' ''img1.png'' = Some ''1''
   \<and> spec_next_name ''img'' ''.png'' [''img1.png'', ''img5.png'' @ [CHR 0x0A]] = ''img2.png''"
proof -
  have "next_name ''img'' ''.png'' [''img1.png'', ''img5.png'' @ [CHR 0x0A]] = ''img6.png''"
    by code_simp
  moreover have "spec_group ''img'' ''.png'' ''img1.png'' = Some ''1''"
    by code_simp
  moreover have
    "spec_next_name ''img'' ''.png'' [''img1.png'', ''img5.png'' @ [CHR 0x0A]] = ''img2.png''"
    by code_simp
  ultimately show ?thesis
    by (simp add: next_image_filename_dir)
qed

text \<open>
  C2. When the directory does not exist or is empty, \<open>next_image_filename\<close> returns
  prefix + "1" + ext and leaves the directory in place, created if it was absent.
\<close>

theorem next_image_filename_first:
  assumes "fs directory = None \<or> fs directory = Some (Directory [])"
  shows "next_image_filename fs directory prefix ext =
           Inr (prefix @ ''1'' @ ext, fs(directory \<mapsto> Directory []))"
proof -
  have one: "next_name prefix ext [] = prefix @ ''1'' @ ext"
    by (simp add: next_name_def py_str.simps digit_char_def)
  from assms show ?thesis
  proof
    assume "fs directory = None"
    then show ?thesis by (simp add: next_image_filename_absent one)
  next
    assume d: "fs directory = Some (Directory [])"
    then have "fs(directory \<mapsto> Directory []) = fs" by (simp add: fun_upd_idem)
    with d show ?thesis by (simp add: next_image_filename_dir one)
  qed
qed

theorem next_image_filename_first_witness:
  "(Map.empty :: filesystem) ''images'' = None \<and>
   next_image_filename Map.empty ''images'' ''img'' ''.png'' =
     Inr (''img1.png'', [''images'' \<mapsto> Directory []])"
  using next_image_filename_first [of Map.empty "''images''" "''img''" "''.png''"]
  by simp

text \<open>
  C3. The specification asks that a name which is not exactly prefix, digits, ext never
  changes the result. The name \<open>img2.png\<close> followed by a newline is not of that form,
  yet with it in the directory the code returns \<open>img3.png\<close> instead of \<open>img1.png\<close>.
\<close>

theorem next_image_filename_newline_name_counted:
  "spec_group ''img'' ''.png'' (''img2.png'' @ [CHR 0x0A]) = None
   \<and> next_image_filename [''images'' \<mapsto> Directory []] ''images'' ''img'' ''.png''
       = Inr (''img1.png'', [''images'' \<mapsto> Directory []])
   \<and> next_image_filename [''images'' \<mapsto> Directory [''img2.png'' @ [CHR 0x0A]]]
         ''images'' ''img'' ''.png''
       = Inr (''img3.png'', [''images'' \<mapsto> Directory [''img2.png'' @ [CHR 0x0A]]])"
proof -
  have "spec_group ''img'' ''.png'' (''img2.png'' @ [CHR 0x0A]) = None"
    by code_simp
  moreover have "next_name ''img'' ''.png'' [] = ''img1.png''"
    by code_simp
  moreover have "next_name ''img'' ''.png'' [''img2.png'' @ [CHR 0x0A]] = ''img3.png''"
    by code_simp
  ultimately show ?thesis
    by (simp add: next_image_filename_dir)
qed

text \<open>
  C4. Leading zeros in the digit group do not change the parsed value: with
  \<open>prefix 0...0 ds ext\<close> as the only entry, the next name carries \<open>int(ds) + 1\<close>.
  With \<open>img007.png\<close> alone the next name is \<open>img8.png\<close>.
\<close>

theorem next_image_filename_leading_zeros:
  assumes "ds \<noteq> []" and "list_all is_digit ds"
  shows "py_int (replicate k CHR ''0'' @ ds) = py_int ds
       \<and> next_image_filename
           (fs(directory \<mapsto> Directory [prefix @ replicate k CHR ''0'' @ ds @ ext]))
           directory prefix ext
         = Inr (prefix @ py_str (py_int ds + 1) @ ext,
                fs(directory \<mapsto> Directory [prefix @ replicate k CHR ''0'' @ ds @ ext]))"
proof -
  let ?g = "replicate k CHR ''0'' @ ds"
  have z: "list_all is_digit (replicate k CHR ''0'')"
    by (simp add: list_all_iff is_digit_def)
  with assms have "pattern_match prefix ext (prefix @ ?g @ ext) = Some ?g"
    by (simp add: pattern_match_iff at_dollar_def)
  then have "next_name prefix ext [prefix @ ?g @ ext] = prefix @ py_str (py_int ?g + 1) @ ext"
    by (simp add: next_name_def)
  then show ?thesis
    by (simp add: next_image_filename_dir py_int_leading_zeros)
qed

theorem next_image_filename_leading_zeros_witness:
  "''7'' \<noteq> [] \<and> list_all is_digit ''7''
   \<and> py_int ''007'' = 7
   \<and> next_image_filename [''images'' \<mapsto> Directory [''img007.png'']] ''images'' ''img'' ''.png''
       = Inr (''img8.png'', [''images'' \<mapsto> Directory [''img007.png'']])"
proof -
  have d: "''7'' \<noteq> []" "list_all is_digit ''7''"
    by (simp_all add: is_digit_def)
  have s: "py_str 8 = ''8''" "py_int ''7'' = 7"
    by code_simp+
  have r: "replicate 2 CHR ''0'' = ''00''"
    by (simp add: numeral_2_eq_2)
  from next_image_filename_leading_zeros [OF d, of 2 Map.empty "''images''" "''img''" "''.png''"]
  show ?thesis using d s r by simp
qed

text \<open>
  C5. The name that \<open>next_image_filename\<close> returns is not among the entries it scanned.
\<close>

theorem next_image_filename_unused:
  assumes "next_image_filename fs directory prefix ext = Inr (r, fs')"
  shows "listdir fs' directory = Inr (listing fs directory) \<and> r \<notin> set (listing fs directory)"
proof -
  let ?names = "listing fs directory"
  have fresh: "next_name prefix ext ?names \<notin> set ?names"
    by (rule next_name_fresh)
  show ?thesis
  proof (cases "fs directory")
    case None
    with assms fresh show ?thesis
      by (auto simp: next_image_filename_absent listing_def listdir_def)
  next
    case (Some n)
    show ?thesis
    proof (cases n)
      case RegularFile
      with Some assms show ?thesis by (simp add: next_image_filename_file)
    next
      case (Directory names)
      with Some assms fresh show ?thesis
        by (auto simp: next_image_filename_dir listing_def listdir_def)
    qed
  qed
qed

theorem next_image_filename_unused_witness:
  "next_image_filename [''images'' \<mapsto> Directory [''img1.png'', ''img2.png'']]
       ''images'' ''img'' ''.png''
     = Inr (''img3.png'', [''images'' \<mapsto> Directory [''img1.png'', ''img2.png'']])
   \<and> ''img3.png'' \<notin> set (listing [''images'' \<mapsto> Directory [''img1.png'', ''img2.png'']] ''images'')"
proof -
  have n: "next_name ''img'' ''.png'' [''img1.png'', ''img2.png''] = ''img3.png''"
    by code_simp
  have e: "next_image_filename [''images'' \<mapsto> Directory [''img1.png'', ''img2.png'']]
       ''images'' ''img'' ''.png''
     = Inr (''img3.png'', [''images'' \<mapsto> Directory [''img1.png'', ''img2.png'']])"
    by (simp add: next_image_filename_dir n)
  from next_image_filename_unused [OF e] e show ?thesis by blast
qed

text \<open>
  C10. The name returned depends only on the set of entry names: a listing and any
  permutation of it, and more generally two listings with the same entries, give the
  same name.
\<close>

theorem next_image_filename_order_independent:
  assumes "mset names' = mset names \<or> set names' = set names"
  shows "\<exists>r. next_image_filename (fs(directory \<mapsto> Directory names)) directory prefix ext
               = Inr (r, fs(directory \<mapsto> Directory names))
           \<and> next_image_filename (fs(directory \<mapsto> Directory names')) directory prefix ext
               = Inr (r, fs(directory \<mapsto> Directory names'))"
proof -
  from assms have "set names' = set names"
    by (auto dest: mset_eq_setD)
  then have "set (indices prefix ext names) = set (indices prefix ext names')"
    by (simp add: set_indices)
  then have "next_name prefix ext names = next_name prefix ext names'"
    by (simp add: next_name_Max)
  then show ?thesis
    by (simp add: next_image_filename_dir)
qed

theorem next_image_filename_order_independent_witness:
  "mset [''img4.png'', ''img1.png'', ''notes.txt''] = mset [''img1.png'', ''notes.txt'', ''img4.png'']
   \<and> next_image_filename [''images'' \<mapsto> Directory [''img1.png'', ''notes.txt'', ''img4.png'']]
         ''images'' ''img'' ''.png''
       = Inr (''img5.png'', [''images'' \<mapsto> Directory [''img1.png'', ''notes.txt'', ''img4.png'']])
   \<and> next_image_filename [''images'' \<mapsto> Directory [''img4.png'', ''img1.png'', ''notes.txt'']]
         ''images'' ''img'' ''.png''
       = Inr (''img5.png'', [''images'' \<mapsto> Directory [''img4.png'', ''img1.png'', ''notes.txt'']])"
proof -
  let ?a = "[''img1.png'', ''notes.txt'', ''img4.png'']"
  let ?b = "[''img4.png'', ''img1.png'', ''notes.txt'']"
  have p: "mset ?b = mset ?a"
    by (simp add: add_mset_commute)
  have n: "next_name ''img'' ''.png'' ?a = ''img5.png''"
    by code_simp
  have a: "next_image_filename [''images'' \<mapsto> Directory ?a] ''images'' ''img'' ''.png''
             = Inr (''img5.png'', [''images'' \<mapsto> Directory ?a])"
    by (simp add: next_image_filename_dir n)
  from next_image_filename_order_independent
         [OF disjI1 [OF p], of Map.empty "''images''" "''img''" "''.png''"]
  obtain r where
    "next_image_filename [''images'' \<mapsto> Directory ?a] ''images'' ''img'' ''.png''
       = Inr (r, [''images'' \<mapsto> Directory ?a])"
    "next_image_filename [''images'' \<mapsto> Directory ?b] ''images'' ''img'' ''.png''
       = Inr (r, [''images'' \<mapsto> Directory ?b])"
    by blast
  with a p show ?thesis by simp
qed

section \<open>The prompt loop\<close>

lemma read_lines_eq:
  "read_lines acc xs =
     (if [] \<in> set xs
      then Inr (acc @ takeWhile (\<lambda>l. l \<noteq> []) xs, tl (dropWhile (\<lambda>l. l \<noteq> []) xs))
      else Inl EOFError)"
  by (induction xs arbitrary: acc) auto

lemma collect_prompt_eq:
  "collect_prompt xs =
     (if [] \<in> set xs then Inr (strip (join_lines (takeWhile (\<lambda>l. l \<noteq> []) xs)))
      else Inl EOFError)"
  by (simp add: collect_prompt_def read_lines_eq)

section \<open>The \<open>try\<close> block\<close>












lemma written_reads [simp]: "written (map LineRead ls @ evs) = written evs"
  by (induction ls) auto

lemma provider_calls_reads [simp]:
  "provider_calls (map LineRead ls @ evs) = provider_calls evs"
  by (induction ls) auto

lemma written_only_reads [simp]: "written (map LineRead ls) = []"
  by (induction ls) auto

lemma provider_calls_only_reads [simp]: "provider_calls (map LineRead ls) = []"
  by (induction ls) auto

lemma written_append_logged [simp]: "written (evs @ [ErrorLogged f]) = written evs"
  by (induction evs rule: written.induct) auto

lemma provider_calls_append_logged [simp]:
  "provider_calls (evs @ [ErrorLogged f]) = provider_calls evs"
  by (induction evs rule: provider_calls.induct) auto

section \<open>The run\<close>









text \<open>The run of the sample world with a key in the environment and the prompt \<open>a cat\<close>.\<close>

lemma sample_next: "next_name ''img'' ''.png'' [''img1.png'', ''img2.png''] = ''img3.png''"
  by code_simp

lemma sample_strip: "strip ''a cat'' = ''a cat''"
  by code_simp

lemma sample_run:
  assumes "env ''GEMINI_API_KEY'' = Some ''secret''"
  shows "main (sample_world env None [''a cat'', []]) =
     \<lparr>exit_code = 0,
      events = [PromptRequested, LineRead ''a cat'', LineRead [], ProviderCall ''a cat'',
                FileWritten ''images/img3.png'' \<lparr>width = 1200, height = 628, load_error = None\<rparr>],
      files_after = [''images'' \<mapsto> Directory [''img1.png'', ''img2.png'', ''img3.png'']]\<rparr>"
proof -
  have t: "try_block (sample_world env None [''a cat'', []]) ''a cat'' =
      (Inr ''img3.png'',
       [ProviderCall ''a cat'',
        FileWritten ''images/img3.png'' \<lparr>width = 1200, height = 628, load_error = None\<rparr>],
       [''images'' \<mapsto> Directory [''img1.png'', ''img2.png'', ''img3.png'']])"
    by (simp add: try_block_def generate_image_def resize_def BANNER_WIDTH_def BANNER_HEIGHT_def
          next_image_filename_dir sample_next save_image_def makedirs_def add_entry_def)
  show ?thesis
    using assms by (simp add: main_def API_KEY_def load_dotenv_def falsy_def sample_strip t)
qed

section \<open>Claims about the script body\<close>

text \<open>
  C6, as the specification words it: collection stops at the first empty line or at the
  end of the input. On the input \<open>Hello\<close>, \<open>World\<close> with no empty line after it the
  specified prompt is the two lines joined, while the loop ends in \<open>EOFError\<close>.
\<close>

theorem collect_prompt_eof_counterexample:
  "spec_collect_prompt [''Hello'', ''World''] = ''Hello'' @ [CHR 0x0A] @ ''World''
   \<and> collect_prompt [''Hello'', ''World''] = Inl EOFError
   \<and> collect_prompt [''Hello'', ''World''] \<noteq> Inr (spec_collect_prompt [''Hello'', ''World''])"
proof -
  have "spec_collect_prompt [''Hello'', ''World''] = ''Hello'' @ [CHR 0x0A] @ ''World''"
    by code_simp
  moreover have "collect_prompt [''Hello'', ''World''] = Inl EOFError"
    by (simp add: collect_prompt_def)
  ultimately show ?thesis by simp
qed

text \<open>
  C6, amended: when the input holds an empty line, the prompt is the lines before the
  first empty line, joined with newlines and stripped; when the input ends without an
  empty line, \<open>input()\<close> raises \<open>EOFError\<close> and there is no prompt.
\<close>

theorem collect_prompt_until_empty_line:
  "([] \<in> set stdin_lines \<longrightarrow>
      collect_prompt stdin_lines =
        Inr (strip (join_lines (takeWhile (\<lambda>l. l \<noteq> []) stdin_lines))))
   \<and> ([] \<notin> set stdin_lines \<longrightarrow> collect_prompt stdin_lines = Inl EOFError)"
  by (simp add: collect_prompt_eq)

theorem collect_prompt_until_empty_line_witness:
  "[] \<in> set [''Hello'', ''World'', []]
   \<and> collect_prompt [''Hello'', ''World'', []] = Inr (''Hello'' @ [CHR 0x0A] @ ''World'')
   \<and> [] \<notin> set [''Hello'']
   \<and> collect_prompt [''Hello''] = Inl EOFError"
proof -
  have s: "strip (''Hello'' @ [CHR 0x0A] @ ''World'') = ''Hello'' @ [CHR 0x0A] @ ''World''"
    by code_simp
  from collect_prompt_until_empty_line [of "[''Hello'', ''World'', []]"]
       collect_prompt_until_empty_line [of "[''Hello'']"]
  show ?thesis using s by simp
qed




text \<open>
  C8, as stated: a missing credential file alone makes the run stop before the prompt.
  With the file missing and \<open>GEMINI_API_KEY\<close> already set in the environment of the
  process, the run asks for the prompt, calls the provider and exits with status 0.
\<close>

theorem main_missing_file_counterexample:
  "dotenv_file (sample_world [''GEMINI_API_KEY'' \<mapsto> ''secret''] None [''a cat'', []]) = None
   \<and> exit_code (main (sample_world [''GEMINI_API_KEY'' \<mapsto> ''secret''] None [''a cat'', []])) = 0
   \<and> exit_status (sample_world [''GEMINI_API_KEY'' \<mapsto> ''secret''] None [''a cat'', []]) = 0
   \<and> PromptRequested \<in>
        set (events (main (sample_world [''GEMINI_API_KEY'' \<mapsto> ''secret''] None [''a cat'', []])))
   \<and> provider_calls
        (events (main (sample_world [''GEMINI_API_KEY'' \<mapsto> ''secret''] None [''a cat'', []])))
       = [''a cat'']"
  by (simp add: sample_run exit_status_def)

text \<open>
  C8, amended: when \<open>os.getenv\<close> gives no key or an empty one after \<open>load_dotenv\<close>,
  which is the case when the credential file is missing and the environment does not
  set the variable either, the run only logs the error and the process exits with a
  non-zero status: no prompt is requested, no line is read, the provider is not called. Conversely a run
  that requests the prompt, reads input or calls the provider has a non-empty key.
\<close>

theorem main_requires_api_key:
  "(falsy (API_KEY w) \<longrightarrow>
      exit_code (main w) = 1 \<and> events (main w) = [ErrorLogged MissingApiKey]
      \<and> files_after (main w) = files w \<and> exit_status w \<noteq> 0)
   \<and> (dotenv_file w = None \<and> environ w ''GEMINI_API_KEY'' = None \<longrightarrow> falsy (API_KEY w))
   \<and> (input_events (events (main w)) \<noteq> [] \<or> provider_calls (events (main w)) \<noteq> [] \<longrightarrow>
        (\<exists>k. API_KEY w = Some k \<and> k \<noteq> []))"
proof (intro conjI impI)
  assume "falsy (API_KEY w)"
  then show "exit_code (main w) = 1" "events (main w) = [ErrorLogged MissingApiKey]"
    "files_after (main w) = files w" "exit_status w \<noteq> 0"
    by (simp_all add: main_def exit_status_def)
next
  assume "dotenv_file w = None \<and> environ w ''GEMINI_API_KEY'' = None"
  then show "falsy (API_KEY w)"
    by (simp add: API_KEY_def load_dotenv_def falsy_def)
next
  assume a: "input_events (events (main w)) \<noteq> [] \<or> provider_calls (events (main w)) \<noteq> []"
  have "\<not> falsy (API_KEY w)"
  proof
    assume "falsy (API_KEY w)"
    then have "events (main w) = [ErrorLogged MissingApiKey]" by (simp add: main_def)
    with a show False by simp
  qed
  then show "\<exists>k. API_KEY w = Some k \<and> k \<noteq> []"
    by (cases "API_KEY w") (auto simp: falsy_def)
qed

theorem main_requires_api_key_witness:
  "falsy (API_KEY (sample_world Map.empty None [''a cat'', []]))
   \<and> events (main (sample_world Map.empty None [''a cat'', []])) = [ErrorLogged MissingApiKey]
   \<and> exit_code (main (sample_world Map.empty None [''a cat'', []])) = 1
   \<and> provider_calls
        (events (main (sample_world [''GEMINI_API_KEY'' \<mapsto> ''secret''] None [''a cat'', []]))) \<noteq> []
   \<and> API_KEY (sample_world [''GEMINI_API_KEY'' \<mapsto> ''secret''] None [''a cat'', []])
       = Some ''secret''"
proof -
  let ?w = "sample_world Map.empty None [''a cat'', []]"
  let ?v = "sample_world [''GEMINI_API_KEY'' \<mapsto> ''secret''] None [''a cat'', []]"
  have p: "provider_calls (events (main ?v)) \<noteq> []"
    by (simp add: sample_run)
  from main_requires_api_key [of ?w] have
    "falsy (API_KEY ?w)" "events (main ?w) = [ErrorLogged MissingApiKey]" "exit_code (main ?w) = 1"
    by simp_all
  moreover from main_requires_api_key [of ?v] p have "\<exists>k. API_KEY ?v = Some k \<and> k \<noteq> []"
    by blast
  then have "API_KEY ?v = Some ''secret''"
    by (simp add: API_KEY_def load_dotenv_def)
  ultimately show ?thesis using p by simp
qed




end
